theory Spec2Isabelle
  imports Main
begin

section \<open>The coroutine generator of Advanced/coroutines.cpp\<close>

text \<open>
  The development embeds \<^verbatim>\<open>Generator<T>\<close>, its iterator, and the three producers
  \<^verbatim>\<open>fibonacci\<close>, \<^verbatim>\<open>range\<close> and \<^verbatim>\<open>inorder\<close>.  A coroutine frame lives in an
  explicit heap, a \<^verbatim>\<open>std::coroutine_handle\<close> is an optional address, and every call whose
  precondition the C++ standard leaves to the caller returns a fault when the precondition fails.
\<close>

subsection \<open>Outcomes\<close>

text \<open>
  \<open>Undefined\<close>: the call violates a precondition of the language or the library (resuming
  a null or finished handle, reading through a null handle, signed overflow).
  \<open>Terminate\<close>: \<^verbatim>\<open>std::terminate\<close> was called.
  \<open>OutOfFuel\<close>: the bound given to a bounded recursion of the model was too small.
\<close>

datatype fault = Undefined | Terminate | OutOfFuel

subsection \<open>The C++ type int\<close>

definition INT_MIN :: int where
  "INT_MIN = - 2147483648"

definition INT_MAX :: int where
  "INT_MAX = 2147483647"

definition is_int :: "int \<Rightarrow> bool" where
  "is_int x = (INT_MIN \<le> x \<and> x \<le> INT_MAX)"

text \<open>Signed addition: a result that is not representable is undefined behaviour.\<close>

definition int_add :: "int \<Rightarrow> int \<Rightarrow> fault + int" where
  "int_add a b = (if is_int (a + b) then Inr (a + b) else Inl Undefined)"

subsection \<open>Frames, handles and the heap\<close>

type_synonym addr = nat

text \<open>A \<^verbatim>\<open>std::coroutine_handle\<close>: \<open>None\<close> is the null handle.\<close>

type_synonym handle_type = "addr option"

text \<open>
  Where a frame is suspended: at its initial suspend point (holding the arguments of the call),
  at a \<^verbatim>\<open>co_yield\<close> (holding the locals and the program position), or at its final
  suspend point.
\<close>

datatype 'l point = Initial 'l | Suspended 'l | Final

text \<open>
  The promise members \<^verbatim>\<open>T value\<close> (left uninitialised by the implicit constructor, \<open>None\<close>
  here, until the first \<^verbatim>\<open>yield_value\<close>) and \<^verbatim>\<open>bool finished = false\<close>, and the
  suspension point of the frame.
\<close>

record ('v, 'l) frame =
  promise_value :: "'v option"
  promise_finished :: bool
  point :: "'l point"

record ('v, 'l, 'w) machine =
  heap :: "addr \<Rightarrow> ('v, 'l) frame option"
  next_addr :: addr
  world :: 'w

text \<open>
  One run of a producer body from a suspension point to its next \<^verbatim>\<open>co_yield\<close>, to the end
  of the body, or to an exception that leaves the body.
\<close>

datatype ('v, 'l) step = Yield 'v 'l | Return | Raise

type_synonym ('v, 'l, 'w) body =
  "'l \<Rightarrow> ('v, 'l, 'w) machine \<Rightarrow> fault + (('v, 'l) step \<times> ('v, 'l, 'w) machine)"

text \<open>The destructors of the locals a suspended frame holds.\<close>

type_synonym ('v, 'l, 'w) cleanup =
  "'l \<Rightarrow> ('v, 'l, 'w) machine \<Rightarrow> fault + ('v, 'l, 'w) machine"

datatype awaiter = suspend_always | suspend_never

subsection \<open>promise_type\<close>

definition initial_suspend :: awaiter where
  "initial_suspend = suspend_always"

definition final_suspend :: awaiter where
  "final_suspend = suspend_always"

definition return_void :: "('v, 'l) frame \<Rightarrow> ('v, 'l) frame" where
  "return_void f = f\<lparr>promise_finished := True\<rparr>"

definition yield_value :: "'v \<Rightarrow> ('v, 'l) frame \<Rightarrow> ('v, 'l) frame" where
  "yield_value v f = f\<lparr>promise_value := Some v\<rparr>"

definition unhandled_exception :: "fault + 'a" where
  "unhandled_exception = Inl Terminate"

subsection \<open>Running a frame\<close>

text \<open>
  The body of frame \<open>a\<close> runs from locals \<open>l\<close>; \<open>f\<close> is the frame as it was when it was
  resumed.
\<close>

definition run ::
  "('v, 'l, 'w) body \<Rightarrow> addr \<Rightarrow> ('v, 'l) frame \<Rightarrow> 'l \<Rightarrow> ('v, 'l, 'w) machine
     \<Rightarrow> fault + ('v, 'l, 'w) machine" where
  "run body a f l m =
     (case body l m of
        Inl e \<Rightarrow> Inl e
      | Inr (Yield v l', m') \<Rightarrow>
          Inr (m'\<lparr>heap := (heap m')(a \<mapsto> (yield_value v f)\<lparr>point := Suspended l'\<rparr>)\<rparr>)
      | Inr (Return, m') \<Rightarrow>
          (case final_suspend of
             suspend_always \<Rightarrow>
               Inr (m'\<lparr>heap := (heap m')(a \<mapsto> (return_void f)\<lparr>point := Final\<rparr>)\<rparr>)
           | suspend_never \<Rightarrow> Inr (m'\<lparr>heap := (heap m')(a := None)\<rparr>))
      | Inr (Raise, m') \<Rightarrow> unhandled_exception)"

text \<open>The frame of a call with arguments \<open>args\<close>, its promise just constructed.\<close>

definition fresh_frame :: "'l \<Rightarrow> ('v, 'l) frame" where
  "fresh_frame args = \<lparr>promise_value = None, promise_finished = False, point = Initial args\<rparr>"

text \<open>
  Calling a coroutine function: the frame is allocated, the promise is constructed, and the
  body starts only if \<open>initial_suspend\<close> does not suspend.
\<close>

definition create ::
  "('v, 'l, 'w) body \<Rightarrow> 'l \<Rightarrow> ('v, 'l, 'w) machine
     \<Rightarrow> fault + (handle_type \<times> ('v, 'l, 'w) machine)" where
  "create body args m =
     (let a = next_addr m;
          f = fresh_frame args;
          m1 = m\<lparr>heap := (heap m)(a \<mapsto> f), next_addr := Suc a\<rparr>
      in case initial_suspend of
           suspend_always \<Rightarrow> Inr (Some a, m1)
         | suspend_never \<Rightarrow>
             (case run body a f args m1 of
                Inl e \<Rightarrow> Inl e
              | Inr m2 \<Rightarrow> Inr (Some a, m2)))"

subsection \<open>std::coroutine_handle\<close>

text \<open>\<^verbatim>\<open>explicit operator bool\<close>\<close>

definition handle_bool :: "handle_type \<Rightarrow> bool" where
  "handle_bool h = (h \<noteq> None)"

text \<open>\<^verbatim>\<open>done()\<close>: the handle must refer to a suspended coroutine.\<close>

definition handle_done :: "handle_type \<Rightarrow> ('v, 'l, 'w) machine \<Rightarrow> fault + bool" where
  "handle_done h m =
     (case h of
        None \<Rightarrow> Inl Undefined
      | Some a \<Rightarrow>
          (case heap m a of
             None \<Rightarrow> Inl Undefined
           | Some f \<Rightarrow> Inr (point f = Final)))"

text \<open>
  \<^verbatim>\<open>resume()\<close>: the handle must refer to a coroutine that is suspended, and not at its
  final suspend point.
\<close>

definition handle_resume ::
  "('v, 'l, 'w) body \<Rightarrow> handle_type \<Rightarrow> ('v, 'l, 'w) machine \<Rightarrow> fault + ('v, 'l, 'w) machine" where
  "handle_resume body h m =
     (case h of
        None \<Rightarrow> Inl Undefined
      | Some a \<Rightarrow>
          (case heap m a of
             None \<Rightarrow> Inl Undefined
           | Some f \<Rightarrow>
               (case point f of
                  Initial l \<Rightarrow> run body a f l m
                | Suspended l \<Rightarrow> run body a f l m
                | Final \<Rightarrow> Inl Undefined)))"

text \<open>
  \<^verbatim>\<open>destroy()\<close>: the handle must refer to a suspended coroutine; the locals alive at the
  suspension point are destroyed, then the frame is freed.
\<close>

definition handle_destroy ::
  "('v, 'l, 'w) cleanup \<Rightarrow> handle_type \<Rightarrow> ('v, 'l, 'w) machine \<Rightarrow> fault + ('v, 'l, 'w) machine" where
  "handle_destroy cleanup h m =
     (case h of
        None \<Rightarrow> Inl Undefined
      | Some a \<Rightarrow>
          (case heap m a of
             None \<Rightarrow> Inl Undefined
           | Some f \<Rightarrow>
               (case (case point f of
                        Initial l \<Rightarrow> cleanup l m
                      | Suspended l \<Rightarrow> cleanup l m
                      | Final \<Rightarrow> Inr m) of
                  Inl e \<Rightarrow> Inl e
                | Inr m' \<Rightarrow> Inr (m'\<lparr>heap := (heap m')(a := None)\<rparr>))))"

text \<open>\<^verbatim>\<open>promise().value\<close>: the handle must refer to a coroutine.\<close>

definition handle_promise_value :: "handle_type \<Rightarrow> ('v, 'l, 'w) machine \<Rightarrow> fault + 'v" where
  "handle_promise_value h m =
     (case h of
        None \<Rightarrow> Inl Undefined
      | Some a \<Rightarrow>
          (case heap m a of
             None \<Rightarrow> Inl Undefined
           | Some f \<Rightarrow>
               (case promise_value f of
                  None \<Rightarrow> Inl Undefined
                | Some v \<Rightarrow> Inr v)))"

subsection \<open>Generator and Generator::Iterator\<close>

text \<open>
  A \<^verbatim>\<open>Generator\<close> has the one member \<^verbatim>\<open>coro\<close>, an \<^verbatim>\<open>Iterator\<close> the one member
  \<^verbatim>\<open>handle\<close>; both are given by the value of that member.
\<close>

text \<open>\<^verbatim>\<open>~Generator() { if (coro) coro.destroy(); }\<close>\<close>

definition Generator_dtor ::
  "('v, 'l, 'w) cleanup \<Rightarrow> handle_type \<Rightarrow> ('v, 'l, 'w) machine \<Rightarrow> fault + ('v, 'l, 'w) machine" where
  "Generator_dtor cleanup coro m =
     (if handle_bool coro then handle_destroy cleanup coro m else Inr m)"

text \<open>\<^verbatim>\<open>bool operator!=(std::default_sentinel_t) const { return !handle.done(); }\<close>\<close>

definition Iterator_neq :: "handle_type \<Rightarrow> ('v, 'l, 'w) machine \<Rightarrow> fault + bool" where
  "Iterator_neq hdl m =
     (case handle_done hdl m of
        Inl e \<Rightarrow> Inl e
      | Inr d \<Rightarrow> Inr (\<not> d))"

text \<open>\<^verbatim>\<open>void operator++() { handle.resume(); }\<close>\<close>

definition Iterator_inc ::
  "('v, 'l, 'w) body \<Rightarrow> handle_type \<Rightarrow> ('v, 'l, 'w) machine \<Rightarrow> fault + ('v, 'l, 'w) machine" where
  "Iterator_inc body hdl m = handle_resume body hdl m"

text \<open>\<^verbatim>\<open>T operator*() const { return handle.promise().value; }\<close>\<close>

definition Iterator_deref :: "handle_type \<Rightarrow> ('v, 'l, 'w) machine \<Rightarrow> fault + 'v" where
  "Iterator_deref hdl m = handle_promise_value hdl m"

text \<open>
  \<^verbatim>\<open>begin()\<close>: the result is the handle of the returned iterator and the machine after the
  first resume.
\<close>

definition Generator_begin ::
  "('v, 'l, 'w) body \<Rightarrow> handle_type \<Rightarrow> ('v, 'l, 'w) machine
     \<Rightarrow> fault + (handle_type \<times> ('v, 'l, 'w) machine)" where
  "Generator_begin body coro m =
     (case (if handle_bool coro then handle_resume body coro m else Inr m) of
        Inl e \<Rightarrow> Inl e
      | Inr m1 \<Rightarrow>
          (case handle_done coro m1 of
             Inl e \<Rightarrow> Inl e
           | Inr d \<Rightarrow> if \<not> d then Inr (coro, m1) else Inr (None, m1)))"

subsection \<open>The range-based for statement over a generator\<close>

datatype loop_exit = Completed | Broke

text \<open>
  \<^verbatim>\<open>for (; it != end; ++it) { auto x = *it; ... }\<close>: the loop body \<open>f\<close> takes the element and
  the consumer's state and answers the new state and whether it executes \<^verbatim>\<open>break\<close>.  The
  first argument bounds the number of iterations.
\<close>

fun for_loop ::
  "nat \<Rightarrow> ('v, 'l, 'w) body \<Rightarrow> ('v \<Rightarrow> 'c \<Rightarrow> 'c \<times> bool) \<Rightarrow> handle_type \<Rightarrow> 'c
     \<Rightarrow> ('v, 'l, 'w) machine \<Rightarrow> fault + ('c \<times> loop_exit \<times> ('v, 'l, 'w) machine)" where
  "for_loop 0 body f it c m = Inl OutOfFuel"
| "for_loop (Suc k) body f it c m =
     (case Iterator_neq it m of
        Inl e \<Rightarrow> Inl e
      | Inr False \<Rightarrow> Inr (c, Completed, m)
      | Inr True \<Rightarrow>
          (case Iterator_deref it m of
             Inl e \<Rightarrow> Inl e
           | Inr x \<Rightarrow>
               (case f x c of
                  (c', True) \<Rightarrow> Inr (c', Broke, m)
                | (c', False) \<Rightarrow>
                    (case Iterator_inc body it m of
                       Inl e \<Rightarrow> Inl e
                     | Inr m' \<Rightarrow> for_loop k body f it c' m'))))"

text \<open>
  \<^verbatim>\<open>for (auto x : producer(args)) ...\<close>: the temporary generator is created, \<^verbatim>\<open>begin()\<close>
  is called once, the loop runs, and the temporary is destroyed when the statement is left.
\<close>

definition range_for ::
  "nat \<Rightarrow> ('v, 'l, 'w) body \<Rightarrow> ('v, 'l, 'w) cleanup \<Rightarrow> 'l \<Rightarrow> ('v \<Rightarrow> 'c \<Rightarrow> 'c \<times> bool) \<Rightarrow> 'c
     \<Rightarrow> ('v, 'l, 'w) machine \<Rightarrow> fault + ('c \<times> loop_exit \<times> ('v, 'l, 'w) machine)" where
  "range_for k body cleanup args f c m =
     (case create body args m of
        Inl e \<Rightarrow> Inl e
      | Inr (coro, m1) \<Rightarrow>
          (case Generator_begin body coro m1 of
             Inl e \<Rightarrow> Inl e
           | Inr (it, m2) \<Rightarrow>
               (case for_loop k body f it c m2 of
                  Inl e \<Rightarrow> Inl e
                | Inr (c', ex, m3) \<Rightarrow>
                    (case Generator_dtor cleanup coro m3 of
                       Inl e \<Rightarrow> Inl e
                     | Inr m4 \<Rightarrow> Inr (c', ex, m4)))))"

text \<open>The loop body of the tests: \<^verbatim>\<open>println("{}", x)\<close>, the output being the state.\<close>

definition print_each :: "int \<Rightarrow> int list \<Rightarrow> int list \<times> bool" where
  "print_each x out = (out @ [x], False)"

text \<open>Locals without a destructor to run.\<close>

definition no_cleanup :: "('v, 'l, 'w) cleanup" where
  "no_cleanup l m = Inr m"

definition empty_machine :: "('v, 'l, unit) machine" where
  "empty_machine = \<lparr>heap = (\<lambda>a. None), next_addr = 0, world = ()\<rparr>"

subsection \<open>range\<close>

text \<open>
  \<^verbatim>\<open>for (int i = start; i < end; i += step) co_yield i;\<close>
  The frame holds the parameters and, once the loop has started, \<open>i\<close>.
\<close>

datatype range_locals =
  RangeEntry int int int
| RangeYield int int int

text \<open>The loop from its condition, with \<open>i\<close> given.\<close>

definition range_test :: "int \<Rightarrow> int \<Rightarrow> int \<Rightarrow> (int, range_locals) step" where
  "range_test i end step = (if i < end then Yield i (RangeYield i end step) else Return)"

fun range_body :: "(int, range_locals, 'w) body" where
  "range_body (RangeEntry start end step) m = Inr (range_test start end step, m)"
| "range_body (RangeYield i end step) m =
     (case int_add i step of
        Inl e \<Rightarrow> Inl e
      | Inr i' \<Rightarrow> Inr (range_test i' end step, m))"

text \<open>\<^verbatim>\<open>range(start, end, step = 1)\<close>\<close>

definition range_args :: "int \<Rightarrow> int \<Rightarrow> range_locals" where
  "range_args start end = RangeEntry start end 1"

text \<open>\<^verbatim>\<open>testRange\<close>: \<^verbatim>\<open>for (auto i : range(1, 6)) println("{}", i);\<close>\<close>

definition testRange ::
  "nat \<Rightarrow> (int, range_locals, unit) machine
     \<Rightarrow> fault + (int list \<times> loop_exit \<times> (int, range_locals, unit) machine)" where
  "testRange k m = range_for k range_body no_cleanup (range_args 1 6) print_each [] m"

subsection \<open>fibonacci\<close>

text \<open>
  \<^verbatim>\<open>int a = 0, b = 1; while (true) { co_yield a; std::swap(a, b); b += a; }\<close>
\<close>

datatype fib_locals =
  FibEntry
| FibYield int int

fun fibonacci_body :: "(int, fib_locals, 'w) body" where
  "fibonacci_body FibEntry m = Inr (Yield 0 (FibYield 0 1), m)"
| "fibonacci_body (FibYield a b) m =
     (case (b, a) of
        (a', b') \<Rightarrow>
          (case int_add b' a' of
             Inl e \<Rightarrow> Inl e
           | Inr b'' \<Rightarrow> Inr (Yield a' (FibYield a' b''), m)))"

text \<open>
  The loop body of \<^verbatim>\<open>testFibonacci\<close>:
  \<^verbatim>\<open>println("{}", n); if (++count >= 10) break;\<close>
\<close>

definition print_ten :: "int \<Rightarrow> int list \<times> int \<Rightarrow> (int list \<times> int) \<times> bool" where
  "print_ten n c =
     (case c of
        (out, count) \<Rightarrow> ((out @ [n], count + 1), count + 1 \<ge> 10))"

definition testFibonacci ::
  "nat \<Rightarrow> (int, fib_locals, unit) machine
     \<Rightarrow> fault + ((int list \<times> int) \<times> loop_exit \<times> (int, fib_locals, unit) machine)" where
  "testFibonacci k m = range_for k fibonacci_body no_cleanup FibEntry print_ten ([], 0) m"

subsection \<open>inorder\<close>

text \<open>
  \<^verbatim>\<open>struct TreeNode { int value; std::unique_ptr<TreeNode> left, right; }\<close>;
  a null pointer is \<open>None\<close>.
\<close>

datatype TreeNode =
  TreeNode (node_value: int) (left: "TreeNode option") (right: "TreeNode option")

text \<open>
  The suspension points of \<^verbatim>\<open>inorder\<close>: its start, the \<^verbatim>\<open>co_yield val\<close> of the loop over
  the left child, \<^verbatim>\<open>co_yield node->value\<close>, and the \<^verbatim>\<open>co_yield val\<close> of the loop over the
  right child.  Inside a loop the frame holds the child generator (its \<^verbatim>\<open>coro\<close>) and the
  iterator (its \<^verbatim>\<open>handle\<close>).
\<close>

datatype inorder_locals =
  InorderEntry "TreeNode option"
| LeftYield TreeNode handle_type handle_type
| NodeYield TreeNode
| RightYield TreeNode handle_type handle_type

text \<open>\<^verbatim>\<open>inorder(child)\<close> followed by \<^verbatim>\<open>begin()\<close> on the new generator.\<close>

definition child_begin ::
  "(int, inorder_locals, 'w) body \<Rightarrow> TreeNode \<Rightarrow> (int, inorder_locals, 'w) machine
     \<Rightarrow> fault + (handle_type \<times> handle_type \<times> (int, inorder_locals, 'w) machine)" where
  "child_begin cb child m =
     (case create cb (InorderEntry (Some child)) m of
        Inl e \<Rightarrow> Inl e
      | Inr (g, m1) \<Rightarrow>
          (case Generator_begin cb g m1 of
             Inl e \<Rightarrow> Inl e
           | Inr (it, m2) \<Rightarrow> Inr (g, it, m2)))"

text \<open>The loop over the right child from its condition; after it the body ends.\<close>

definition right_test ::
  "(int, inorder_locals, 'w) cleanup \<Rightarrow> TreeNode \<Rightarrow> handle_type \<Rightarrow> handle_type
     \<Rightarrow> (int, inorder_locals, 'w) machine
     \<Rightarrow> fault + ((int, inorder_locals) step \<times> (int, inorder_locals, 'w) machine)" where
  "right_test cc nd g it m =
     (case Iterator_neq it m of
        Inl e \<Rightarrow> Inl e
      | Inr True \<Rightarrow>
          (case Iterator_deref it m of
             Inl e \<Rightarrow> Inl e
           | Inr val \<Rightarrow> Inr (Yield val (RightYield nd g it), m))
      | Inr False \<Rightarrow>
          (case Generator_dtor cc g m of
             Inl e \<Rightarrow> Inl e
           | Inr m' \<Rightarrow> Inr (Return, m')))"

text \<open>The loop over the left child from its condition; after it \<^verbatim>\<open>co_yield node->value\<close>.\<close>

definition left_test ::
  "(int, inorder_locals, 'w) cleanup \<Rightarrow> TreeNode \<Rightarrow> handle_type \<Rightarrow> handle_type
     \<Rightarrow> (int, inorder_locals, 'w) machine
     \<Rightarrow> fault + ((int, inorder_locals) step \<times> (int, inorder_locals, 'w) machine)" where
  "left_test cc nd g it m =
     (case Iterator_neq it m of
        Inl e \<Rightarrow> Inl e
      | Inr True \<Rightarrow>
          (case Iterator_deref it m of
             Inl e \<Rightarrow> Inl e
           | Inr val \<Rightarrow> Inr (Yield val (LeftYield nd g it), m))
      | Inr False \<Rightarrow>
          (case Generator_dtor cc g m of
             Inl e \<Rightarrow> Inl e
           | Inr m' \<Rightarrow> Inr (Yield (node_value nd) (NodeYield nd), m')))"

text \<open>
  The destructors of the locals of a suspended \<^verbatim>\<open>inorder\<close> frame: inside a loop, the child
  generator.  The first argument bounds the nesting of generators.
\<close>

primrec inorder_cleanup :: "nat \<Rightarrow> (int, inorder_locals, 'w) cleanup" where
  "inorder_cleanup 0 = (\<lambda>l m. Inl OutOfFuel)"
| "inorder_cleanup (Suc n) =
     (\<lambda>l m. case l of
        InorderEntry node \<Rightarrow> Inr m
      | LeftYield nd g it \<Rightarrow> Generator_dtor (inorder_cleanup n) g m
      | NodeYield nd \<Rightarrow> Inr m
      | RightYield nd g it \<Rightarrow> Generator_dtor (inorder_cleanup n) g m)"

text \<open>
  The body of \<^verbatim>\<open>inorder\<close>.  The first argument bounds the nesting of generators: the child
  generators run the body with one less.
\<close>

primrec inorder_body :: "nat \<Rightarrow> (int, inorder_locals, 'w) body" where
  "inorder_body 0 = (\<lambda>l m. Inl OutOfFuel)"
| "inorder_body (Suc n) =
     (\<lambda>l m. case l of
        InorderEntry None \<Rightarrow> Inr (Return, m)
      | InorderEntry (Some nd) \<Rightarrow>
          (case left nd of
             Some lt \<Rightarrow>
               (case child_begin (inorder_body n) lt m of
                  Inl e \<Rightarrow> Inl e
                | Inr (g, it, m') \<Rightarrow> left_test (inorder_cleanup n) nd g it m')
           | None \<Rightarrow> Inr (Yield (node_value nd) (NodeYield nd), m))
      | LeftYield nd g it \<Rightarrow>
          (case Iterator_inc (inorder_body n) it m of
             Inl e \<Rightarrow> Inl e
           | Inr m' \<Rightarrow> left_test (inorder_cleanup n) nd g it m')
      | NodeYield nd \<Rightarrow>
          (case right nd of
             Some rt \<Rightarrow>
               (case child_begin (inorder_body n) rt m of
                  Inl e \<Rightarrow> Inl e
                | Inr (g, it, m') \<Rightarrow> right_test (inorder_cleanup n) nd g it m')
           | None \<Rightarrow> Inr (Return, m))
      | RightYield nd g it \<Rightarrow>
          (case Iterator_inc (inorder_body n) it m of
             Inl e \<Rightarrow> Inl e
           | Inr m' \<Rightarrow> right_test (inorder_cleanup n) nd g it m'))"

text \<open>The tree \<^verbatim>\<open>testTreeTraversal\<close> builds.\<close>

definition leaf_node :: "int \<Rightarrow> TreeNode" where
  "leaf_node v = TreeNode v None None"

definition test_root :: TreeNode where
  "test_root =
     TreeNode 4
       (Some (TreeNode 2 (Some (leaf_node 1)) (Some (leaf_node 3))))
       (Some (TreeNode 6 (Some (leaf_node 5)) (Some (leaf_node 7))))"

text \<open>\<^verbatim>\<open>for (auto val : inorder(root.get())) println("{}", val);\<close>\<close>

definition testTreeTraversal ::
  "nat \<Rightarrow> nat \<Rightarrow> (int, inorder_locals, unit) machine
     \<Rightarrow> fault + (int list \<times> loop_exit \<times> (int, inorder_locals, unit) machine)" where
  "testTreeTraversal k n m =
     range_for k (inorder_body n) (inorder_cleanup n) (InorderEntry (Some test_root))
       print_each [] m"

subsection \<open>Generator objects: moves and the destructor\<close>

text \<open>
  Generator objects are named by \<open>'g\<close>; the table gives the \<^verbatim>\<open>coro\<close> member of each.
\<close>

type_synonym 'g objects = "'g \<Rightarrow> handle_type"

text \<open>\<^verbatim>\<open>Generator(Generator&& other) noexcept : coro(other.coro) { other.coro = nullptr; }\<close>\<close>

definition Generator_move_ctor :: "'g \<Rightarrow> 'g \<Rightarrow> 'g objects \<Rightarrow> 'g objects" where
  "Generator_move_ctor this other gs = (gs(this := gs other))(other := None)"

text \<open>\<^verbatim>\<open>Generator& operator=(Generator&& other) noexcept\<close>\<close>

definition Generator_move_assign ::
  "('v, 'l, 'w) cleanup \<Rightarrow> 'g \<Rightarrow> 'g \<Rightarrow> 'g objects \<times> ('v, 'l, 'w) machine
     \<Rightarrow> fault + ('g objects \<times> ('v, 'l, 'w) machine)" where
  "Generator_move_assign cleanup this other s =
     (case s of
        (gs, m) \<Rightarrow>
          if this \<noteq> other then
            (case (if handle_bool (gs this) then handle_destroy cleanup (gs this) m else Inr m) of
               Inl e \<Rightarrow> Inl e
             | Inr m' \<Rightarrow> Inr ((gs(this := gs other))(other := None), m'))
          else Inr (gs, m))"

text \<open>The destructor of the object \<open>this\<close>.\<close>

definition Generator_destructor ::
  "('v, 'l, 'w) cleanup \<Rightarrow> 'g \<Rightarrow> 'g objects \<times> ('v, 'l, 'w) machine
     \<Rightarrow> fault + ('v, 'l, 'w) machine" where
  "Generator_destructor cleanup this s = (case s of (gs, m) \<Rightarrow> Generator_dtor cleanup (gs this) m)"

subsection \<open>Consumers and producers used to exercise the generator\<close>

text \<open>\<open>n\<close> calls of \<^verbatim>\<open>resume()\<close> on a handle, stopping at the first fault.\<close>

fun resume_n ::
  "nat \<Rightarrow> ('v, 'l, 'w) body \<Rightarrow> handle_type \<Rightarrow> ('v, 'l, 'w) machine
     \<Rightarrow> fault + ('v, 'l, 'w) machine" where
  "resume_n 0 body h m = Inr m"
| "resume_n (Suc n) body h m =
     (case handle_resume body h m of
        Inl e \<Rightarrow> Inl e
      | Inr m' \<Rightarrow> resume_n n body h m')"

text \<open>
  What a consumer sees of a frame: the value of the promise while the frame is not done,
  that it is done, or the fault of the call that looked.
\<close>

datatype 'v observation = Yielded 'v | Finished | Faulted fault

definition observe :: "handle_type \<Rightarrow> ('v, 'l, 'w) machine \<Rightarrow> 'v observation" where
  "observe h m =
     (case handle_done h m of
        Inl e \<Rightarrow> Faulted e
      | Inr True \<Rightarrow> Finished
      | Inr False \<Rightarrow>
          (case handle_promise_value h m of
             Inl e \<Rightarrow> Faulted e
           | Inr v \<Rightarrow> Yielded v))"

text \<open>The producer is called, its handle resumed \<open>n\<close> times, and the frame observed.\<close>

definition nth_resume ::
  "nat \<Rightarrow> ('v, 'l, 'w) body \<Rightarrow> 'l \<Rightarrow> ('v, 'l, 'w) machine \<Rightarrow> 'v observation" where
  "nth_resume n body args m =
     (case create body args m of
        Inl e \<Rightarrow> Faulted e
      | Inr (coro, m1) \<Rightarrow>
          (case resume_n n body coro m1 of
             Inl e \<Rightarrow> Faulted e
           | Inr m2 \<Rightarrow> observe coro m2))"

text \<open>
  A consumer that leaves the protocol of the for statement:
  \<^verbatim>\<open>auto g = producer(args); auto it = g.begin(); ++it;\<close> (\<open>n\<close> times)
  \<^verbatim>\<open>bool has = (it != g.end()); auto x = *it;\<close>, answering \<open>(has, x)\<close>.
  Each \<^verbatim>\<open>++it\<close> is \<^verbatim>\<open>resume()\<close> on the handle of the iterator.
\<close>

definition read_after ::
  "nat \<Rightarrow> ('v, 'l, 'w) body \<Rightarrow> 'l \<Rightarrow> ('v, 'l, 'w) machine \<Rightarrow> fault + (bool \<times> 'v)" where
  "read_after n body args m =
     (case create body args m of
        Inl e \<Rightarrow> Inl e
      | Inr (coro, m1) \<Rightarrow>
          (case Generator_begin body coro m1 of
             Inl e \<Rightarrow> Inl e
           | Inr (it, m2) \<Rightarrow>
               (case resume_n n body it m2 of
                  Inl e \<Rightarrow> Inl e
                | Inr m3 \<Rightarrow>
                    (case Iterator_neq it m3 of
                       Inl e \<Rightarrow> Inl e
                     | Inr has \<Rightarrow>
                         (case Iterator_deref it m3 of
                            Inl e \<Rightarrow> Inl e
                          | Inr x \<Rightarrow> Inr (has, x))))))"

text \<open>
  A producer with a side effect at its start, the world being a counter:
  \<^verbatim>\<open>++counter; co_yield 7;\<close>
\<close>

datatype counting_locals = CountingEntry | CountingYield

fun counting_body :: "(int, counting_locals, nat) body" where
  "counting_body CountingEntry m = Inr (Yield 7 CountingYield, m\<lparr>world := Suc (world m)\<rparr>)"
| "counting_body CountingYield m = Inr (Return, m)"

text \<open>
  A producer whose body throws after its first value:
  \<^verbatim>\<open>co_yield 1; throw std::runtime_error("boom");\<close>
\<close>

datatype throwing_locals = ThrowingEntry | ThrowingYield

fun throwing_body :: "(int, throwing_locals, 'w) body" where
  "throwing_body ThrowingEntry m = Inr (Yield 1 ThrowingYield, m)"
| "throwing_body ThrowingYield m = Inr (Raise, m)"

section \<open>Properties\<close>

lemmas engine_defs =
  run_def create_def fresh_frame_def handle_bool_def handle_done_def handle_resume_def
  handle_destroy_def handle_promise_value_def Generator_dtor_def Iterator_neq_def
  Iterator_inc_def Iterator_deref_def Generator_begin_def initial_suspend_def
  final_suspend_def return_void_def yield_value_def unhandled_exception_def no_cleanup_def
  Let_def

lemmas int_defs = int_add_def is_int_def INT_MIN_def INT_MAX_def

lemma fuel_3: "3 + k = Suc (Suc (Suc k))"
  by simp

lemma fuel_6: "6 + k = Suc (Suc (Suc (Suc (Suc (Suc k)))))"
  by simp

lemma fuel_8: "8 + k = Suc (Suc (Suc (Suc (Suc (Suc (Suc (Suc k)))))))"
  by simp

lemma fuel_10: "10 + k = Suc (Suc (Suc (Suc (Suc (Suc (Suc (Suc (Suc (Suc k)))))))))"
  by simp

subsection \<open>range(1, 6)\<close>

text \<open>
  C1. The statement \<^verbatim>\<open>for (auto i : range(1, 6))\<close> of \<^verbatim>\<open>testRange\<close>, from any machine and
  with any bound of at least six iterations, reads exactly 1, 2, 3, 4, 5 in that order and
  leaves the loop because the iterator reports completion; the frame is then freed.
\<close>

theorem testRange_yields_1_to_5:
  "testRange (6 + k) m =
     Inr ([1, 2, 3, 4, 5], Completed,
          m\<lparr>heap := (heap m)(next_addr m := None), next_addr := Suc (next_addr m)\<rparr>)"
  unfolding fuel_6
  by (simp add: testRange_def range_for_def engine_defs range_args_def range_test_def
      int_defs print_each_def)

subsection \<open>Repeated resumption\<close>

text \<open>The last of \<open>n + 1\<close> calls of \<^verbatim>\<open>resume()\<close> can be split off.\<close>

lemma resume_n_snoc:
  "resume_n (Suc n) body h m =
     (case resume_n n body h m of Inl e \<Rightarrow> Inl e | Inr m' \<Rightarrow> handle_resume body h m')"
proof (induction n arbitrary: m)
  case 0
  show ?case by (simp split: sum.splits)
next
  case (Suc n)
  show ?case
  proof (cases "handle_resume body h m")
    case (Inl e)
    then show ?thesis by simp
  next
    case (Inr m')
    have "resume_n (Suc (Suc n)) body h m = resume_n (Suc n) body h m'"
      using Inr by simp
    also have "\<dots> = (case resume_n n body h m' of Inl e \<Rightarrow> Inl e | Inr m'' \<Rightarrow> handle_resume body h m'')"
      by (rule Suc.IH)
    also have "\<dots> = (case resume_n (Suc n) body h m of Inl e \<Rightarrow> Inl e | Inr m'' \<Rightarrow> handle_resume body h m'')"
      using Inr by simp
    finally show ?thesis .
  qed
qed

subsection \<open>fibonacci\<close>

text \<open>
  However often a \<^verbatim>\<open>fibonacci\<close> frame is resumed, either \<^verbatim>\<open>b += a\<close> has overflowed, or
  the machine differs from the one before the first resume only in the promise value and the two
  locals of that frame: the frame is suspended at its \<^verbatim>\<open>co_yield\<close>, never at its final
  suspend point.
\<close>

lemma fibonacci_resume_n:
  assumes "heap m a = Some f" and "point f = Initial FibEntry"
  shows "resume_n (Suc n) fibonacci_body (Some a) m = Inl Undefined \<or>
         (\<exists>x y. resume_n (Suc n) fibonacci_body (Some a) m =
            Inr (m\<lparr>heap := (heap m)(a \<mapsto> f\<lparr>promise_value := Some x, point := Suspended (FibYield x y)\<rparr>)\<rparr>))"
proof (induction n)
  case 0
  have "resume_n (Suc 0) fibonacci_body (Some a) m =
      Inr (m\<lparr>heap := (heap m)(a \<mapsto> f\<lparr>promise_value := Some 0, point := Suspended (FibYield 0 1)\<rparr>)\<rparr>)"
    using assms by (simp add: handle_resume_def run_def yield_value_def)
  then show ?case by blast
next
  case (Suc n)
  from Suc.IH show ?case
  proof
    assume "resume_n (Suc n) fibonacci_body (Some a) m = Inl Undefined"
    then show ?thesis by (simp add: resume_n_snoc [of "Suc n"] del: resume_n.simps)
  next
    assume "\<exists>x y. resume_n (Suc n) fibonacci_body (Some a) m =
            Inr (m\<lparr>heap := (heap m)(a \<mapsto> f\<lparr>promise_value := Some x, point := Suspended (FibYield x y)\<rparr>)\<rparr>)"
    then obtain x y where st: "resume_n (Suc n) fibonacci_body (Some a) m =
            Inr (m\<lparr>heap := (heap m)(a \<mapsto> f\<lparr>promise_value := Some x, point := Suspended (FibYield x y)\<rparr>)\<rparr>)"
      by blast
    show ?thesis
    proof (cases "is_int (x + y)")
      case True
      have "resume_n (Suc (Suc n)) fibonacci_body (Some a) m =
          Inr (m\<lparr>heap := (heap m)(a \<mapsto> f\<lparr>promise_value := Some y, point := Suspended (FibYield y (x + y))\<rparr>)\<rparr>)"
        using True st
        by (simp add: resume_n_snoc [of "Suc n"] handle_resume_def run_def yield_value_def
            int_add_def add.commute del: resume_n.simps)
      then show ?thesis by blast
    next
      case False
      have "resume_n (Suc (Suc n)) fibonacci_body (Some a) m = Inl Undefined"
        using False st
        by (simp add: resume_n_snoc [of "Suc n"] handle_resume_def run_def yield_value_def
            int_add_def add.commute del: resume_n.simps)
      then show ?thesis by blast
    qed
  qed
qed

text \<open>
  C5. The loop of \<^verbatim>\<open>testFibonacci\<close>, from any machine and with any bound of at least ten
  iterations, reads exactly 0, 1, 1, 2, 3, 5, 8, 13, 21, 34 and is left by its \<^verbatim>\<open>break\<close>
  after the tenth value, not by completion.  And for every number of resumptions of a new
  \<^verbatim>\<open>fibonacci\<close> generator that stays clear of signed overflow, the machine is the one
  after the call but for the promise value and the two locals of the one frame: nothing is
  allocated and the frame does not complete.
\<close>

theorem testFibonacci_first_ten:
  "testFibonacci (10 + k) m =
     Inr (([0, 1, 1, 2, 3, 5, 8, 13, 21, 34], 10), Broke,
          m\<lparr>heap := (heap m)(next_addr m := None), next_addr := Suc (next_addr m)\<rparr>)
   \<and> (\<exists>g m1. create fibonacci_body FibEntry m = Inr (g, m1) \<and>
        (\<forall>n. resume_n (Suc n) fibonacci_body g m1 = Inl Undefined \<or>
             (\<exists>x y. resume_n (Suc n) fibonacci_body g m1 =
                Inr (m1\<lparr>heap := (heap m1)(next_addr m \<mapsto>
                  \<lparr>promise_value = Some x, promise_finished = False,
                   point = Suspended (FibYield x y)\<rparr>)\<rparr>))))"
proof
  show "testFibonacci (10 + k) m =
     Inr (([0, 1, 1, 2, 3, 5, 8, 13, 21, 34], 10), Broke,
          m\<lparr>heap := (heap m)(next_addr m := None), next_addr := Suc (next_addr m)\<rparr>)"
    unfolding fuel_10
    by (simp add: testFibonacci_def range_for_def engine_defs int_defs print_ten_def)
next
  let ?m1 = "m\<lparr>heap := (heap m)(next_addr m \<mapsto> fresh_frame FibEntry), next_addr := Suc (next_addr m)\<rparr>"
  have cr: "create fibonacci_body FibEntry m = Inr (Some (next_addr m), ?m1)"
    by (simp add: create_def initial_suspend_def Let_def)
  have "\<forall>n. resume_n (Suc n) fibonacci_body (Some (next_addr m)) ?m1 = Inl Undefined \<or>
             (\<exists>x y. resume_n (Suc n) fibonacci_body (Some (next_addr m)) ?m1 =
                Inr (?m1\<lparr>heap := (heap ?m1)(next_addr m \<mapsto>
                  \<lparr>promise_value = Some x, promise_finished = False,
                   point = Suspended (FibYield x y)\<rparr>)\<rparr>))"
  proof
    fix n
    have h: "heap ?m1 (next_addr m) = Some (fresh_frame FibEntry)" by simp
    have p: "point (fresh_frame FibEntry :: (int, fib_locals) frame) = Initial FibEntry"
      by (simp add: fresh_frame_def)
    show "resume_n (Suc n) fibonacci_body (Some (next_addr m)) ?m1 = Inl Undefined \<or>
             (\<exists>x y. resume_n (Suc n) fibonacci_body (Some (next_addr m)) ?m1 =
                Inr (?m1\<lparr>heap := (heap ?m1)(next_addr m \<mapsto>
                  \<lparr>promise_value = Some x, promise_finished = False,
                   point = Suspended (FibYield x y)\<rparr>)\<rparr>))"
      using fibonacci_resume_n [OF h p, of n] by (simp add: fresh_frame_def)
  qed
  with cr show "\<exists>g m1. create fibonacci_body FibEntry m = Inr (g, m1) \<and>
        (\<forall>n. resume_n (Suc n) fibonacci_body g m1 = Inl Undefined \<or>
             (\<exists>x y. resume_n (Suc n) fibonacci_body g m1 =
                Inr (m1\<lparr>heap := (heap m1)(next_addr m \<mapsto>
                  \<lparr>promise_value = Some x, promise_finished = False,
                   point = Suspended (FibYield x y)\<rparr>)\<rparr>)))"
    by blast
qed

subsection \<open>inorder\<close>

text \<open>
  C6. The loop of \<^verbatim>\<open>testTreeTraversal\<close> over the tree 4 (2 (1, 3), 6 (5, 7)), from any
  machine, with any bound of at least eight iterations and any nesting bound of at least three,
  reads exactly 1, 2, 3, 4, 5, 6, 7 and is left because the iterator reports completion; the
  seven frames it allocated are freed.
\<close>

theorem testTreeTraversal_yields_inorder:
  "testTreeTraversal (8 + k) (3 + n) m =
     Inr ([1, 2, 3, 4, 5, 6, 7], Completed,
          m\<lparr>next_addr := Suc (Suc (Suc (Suc (Suc (Suc (Suc (next_addr m))))))),
         heap :=
           (heap m)
           (Suc (Suc (next_addr m)) := None,
              Suc (Suc (Suc (next_addr m))) := None,
              Suc (next_addr m) := None,
              Suc (Suc (Suc (Suc (Suc (next_addr m))))) := None,
              Suc (Suc (Suc (Suc (Suc (Suc (next_addr m)))))) := None,
              Suc (Suc (Suc (Suc (next_addr m)))) := None,
              next_addr m := None)\<rparr>)"
  unfolding fuel_8 fuel_3
  by (simp add: testTreeTraversal_def range_for_def engine_defs test_root_def leaf_node_def
      child_begin_def left_test_def right_test_def print_each_def)

subsection \<open>Laziness\<close>

text \<open>
  C4. Calling a producer only allocates its frame, suspended at the initial suspend point with
  the arguments: the result does not depend on the body, and the rest of the machine, the world
  included, is as before.  \<^verbatim>\<open>begin()\<close> on the new generator is the first run of the body,
  from the arguments and on exactly the machine the call left.
\<close>

theorem create_runs_no_producer_code:
  "create body args m =
     Inr (Some (next_addr m),
          m\<lparr>heap := (heap m)(next_addr m \<mapsto> fresh_frame args), next_addr := Suc (next_addr m)\<rparr>)
   \<and> Generator_begin body (Some (next_addr m))
        (m\<lparr>heap := (heap m)(next_addr m \<mapsto> fresh_frame args), next_addr := Suc (next_addr m)\<rparr>) =
       (case body args
               (m\<lparr>heap := (heap m)(next_addr m \<mapsto> fresh_frame args),
                  next_addr := Suc (next_addr m)\<rparr>) of
          Inl e \<Rightarrow> Inl e
        | Inr (Yield v l, m2) \<Rightarrow>
            Inr (Some (next_addr m),
                 m2\<lparr>heap := (heap m2)(next_addr m \<mapsto>
                   \<lparr>promise_value = Some v, promise_finished = False, point = Suspended l\<rparr>)\<rparr>)
        | Inr (Return, m2) \<Rightarrow>
            Inr (None,
                 m2\<lparr>heap := (heap m2)(next_addr m \<mapsto>
                   \<lparr>promise_value = None, promise_finished = True, point = Final\<rparr>)\<rparr>)
        | Inr (Raise, m2) \<Rightarrow> Inl Terminate)"
proof (cases "body args
               (m\<lparr>heap := (heap m)(next_addr m \<mapsto> fresh_frame args),
                  next_addr := Suc (next_addr m)\<rparr>)")
  case (Inl e)
  then show ?thesis by (simp add: engine_defs)
next
  case (Inr r)
  obtain s m2 where r: "r = (s, m2)" by (cases r)
  show ?thesis
  proof (cases s)
    case (Yield v l)
    with Inr r show ?thesis by (simp add: engine_defs)
  next
    case Return
    with Inr r show ?thesis by (simp add: engine_defs)
  next
    case Raise
    with Inr r show ?thesis by (simp add: engine_defs)
  qed
qed

text \<open>
  For the producer that increments a counter before its first \<^verbatim>\<open>co_yield\<close>: the counter is
  still 0 after the call and 1 after \<^verbatim>\<open>begin()\<close>.
\<close>

lemma counting_body_runs_at_begin:
  "create counting_body CountingEntry \<lparr>heap = (\<lambda>a. None), next_addr = 0, world = 0\<rparr> =
     Inr (Some 0, \<lparr>heap = [0 \<mapsto> fresh_frame CountingEntry], next_addr = 1, world = 0\<rparr>)
   \<and> Generator_begin counting_body (Some 0)
       \<lparr>heap = [0 \<mapsto> fresh_frame CountingEntry], next_addr = 1, world = 0\<rparr> =
     Inr (Some 0,
       \<lparr>heap = [0 \<mapsto> \<lparr>promise_value = Some 7, promise_finished = False,
                        point = Suspended CountingYield\<rparr>], next_addr = 1, world = 1\<rparr>)"
  by (simp add: engine_defs)

subsection \<open>Null handles\<close>

text \<open>
  C7. \<^verbatim>\<open>begin()\<close> on a generator without a frame and all three operations of an iterator
  with a null handle call a member of the null \<^verbatim>\<open>coroutine_handle\<close> that requires a
  coroutine: undefined behaviour.  \<^verbatim>\<open>begin()\<close> returns such an iterator when the producer
  completes without a value, so the for statement over \<^verbatim>\<open>range(6, 1)\<close> or over
  \<^verbatim>\<open>inorder(nullptr)\<close> is undefined at its first \<^verbatim>\<open>it != end\<close>.
\<close>

theorem empty_handle_operations_undefined:
  "Generator_begin body None m = Inl Undefined
   \<and> Iterator_neq None m = Inl Undefined
   \<and> Iterator_inc body None m = Inl Undefined
   \<and> Iterator_deref None m = (Inl Undefined :: fault + 'v)
   \<and> range_for (Suc k) range_body no_cleanup (range_args 6 1) print_each [] m' = Inl Undefined
   \<and> range_for (Suc k) (inorder_body (Suc n)) (inorder_cleanup (Suc n)) (InorderEntry None) print_each [] m'' = Inl Undefined"
  by (simp add: range_for_def engine_defs range_args_def range_test_def)

subsection \<open>Reading after completion\<close>

text \<open>
  C2, as stated, fails.  The consumer that creates \<^verbatim>\<open>range(1, 2)\<close>, calls \<^verbatim>\<open>begin()\<close>,
  advances once (the body returns, \<^verbatim>\<open>it != end\<close> is false) and then reads \<^verbatim>\<open>*it\<close> gets
  the value 1 yielded before completion, not a failure.
\<close>

theorem stale_read_after_completion_range_1_2:
  "read_after 1 range_body (range_args 1 2) empty_machine = Inr (False, 1)"
  by (simp add: read_after_def engine_defs range_args_def range_test_def int_defs empty_machine_def)

text \<open>
  C2, amended.  When a \<^verbatim>\<open>resume()\<close> of a frame whose promise holds the value \<open>v\<close> leaves the
  frame done, \<^verbatim>\<open>operator*\<close> of an iterator holding that frame returns \<open>v\<close>, the last value
  yielded, for every producer body: neither \<^verbatim>\<open>operator*\<close> nor the promise looks at
  completion.
\<close>

theorem deref_after_completion_returns_last_value:
  assumes "heap m a = Some f" and "promise_value f = Some v"
    and "handle_resume body (Some a) m = Inr m'" and "handle_done (Some a) m' = Inr True"
  shows "Iterator_deref (Some a) m' = Inr v"
  using assms
  by (auto simp: engine_defs split: point.splits sum.splits step.splits prod.splits)

text \<open>
  Witness for C2, amended: the frame of \<^verbatim>\<open>range(1, 2)\<close>, suspended after yielding 1, is
  resumed, is done, and reads 1.
\<close>

theorem deref_after_completion_witness:
  "handle_resume range_body (Some 0)
     \<lparr>heap = [0 \<mapsto> \<lparr>promise_value = Some 1, promise_finished = False,
                      point = Suspended (RangeYield 1 2 1)\<rparr>],
      next_addr = 1, world = ()\<rparr> =
   Inr \<lparr>heap = [0 \<mapsto> \<lparr>promise_value = Some 1, promise_finished = True, point = Final\<rparr>],
        next_addr = 1, world = ()\<rparr>
   \<and> handle_done (Some 0)
       \<lparr>heap = [0 \<mapsto> \<lparr>promise_value = Some (1::int), promise_finished = True,
                        point = (Final :: range_locals point)\<rparr>],
        next_addr = 1, world = ()\<rparr> = Inr True
   \<and> Iterator_deref (Some 0)
       \<lparr>heap = [0 \<mapsto> \<lparr>promise_value = Some (1::int), promise_finished = True,
                        point = (Final :: range_locals point)\<rparr>],
        next_addr = 1, world = ()\<rparr> = Inr 1"
proof -
  let ?f = "\<lparr>promise_value = Some (1::int), promise_finished = False,
             point = Suspended (RangeYield 1 2 1)\<rparr>"
  let ?m = "\<lparr>heap = [0 \<mapsto> ?f], next_addr = 1, world = ()\<rparr>"
  let ?m' = "\<lparr>heap = [0 \<mapsto> \<lparr>promise_value = Some (1::int), promise_finished = True,
                               point = (Final :: range_locals point)\<rparr>],
              next_addr = 1, world = ()\<rparr>"
  have h1: "heap ?m 0 = Some ?f" by simp
  have h2: "promise_value ?f = Some 1" by simp
  have h3: "handle_resume range_body (Some 0) ?m = Inr ?m'"
    by (simp add: engine_defs range_test_def int_defs)
  have h4: "handle_done (Some 0) ?m' = Inr True"
    by (simp add: engine_defs)
  show ?thesis using h3 h4 deref_after_completion_returns_last_value [OF h1 h2 h3 h4] by simp
qed

subsection \<open>Advancing after completion\<close>

text \<open>
  C3, as stated, fails.  For \<^verbatim>\<open>range(1, 2)\<close> the first \<^verbatim>\<open>++it\<close> after \<^verbatim>\<open>begin()\<close>
  completes the frame; a second \<^verbatim>\<open>++it\<close> calls \<^verbatim>\<open>resume()\<close> at the final suspend point,
  which is undefined behaviour, not a no-op.
\<close>

theorem advance_after_completion_range_1_2:
  "read_after 1 range_body (range_args 1 2) empty_machine = Inr (False, 1)
   \<and> read_after 2 range_body (range_args 1 2) empty_machine = Inl Undefined"
  by (simp add: read_after_def engine_defs range_args_def range_test_def int_defs empty_machine_def
      numeral_2_eq_2)

text \<open>
  C3, amended.  On a frame at its final suspend point \<^verbatim>\<open>operator!=\<close> reports completion
  (it only reads the frame), while \<^verbatim>\<open>operator++\<close> is an unguarded \<^verbatim>\<open>resume()\<close>: for every
  producer body it runs no producer code, and it is outside defined behaviour.
\<close>

theorem advance_after_completion_undefined:
  assumes "heap m a = Some f" and "point f = Final"
  shows "Iterator_neq (Some a) m = Inr False \<and> Iterator_inc body (Some a) m = Inl Undefined"
  using assms by (simp add: engine_defs)

text \<open>Witness for C3, amended: the completed frame of \<^verbatim>\<open>range(1, 2)\<close>.\<close>

theorem advance_after_completion_witness:
  "Iterator_neq (Some 0)
     \<lparr>heap = [0 \<mapsto> \<lparr>promise_value = Some (1::int), promise_finished = True,
                      point = (Final :: range_locals point)\<rparr>],
      next_addr = 1, world = ()\<rparr> = Inr False
   \<and> Iterator_inc range_body (Some 0)
       \<lparr>heap = [0 \<mapsto> \<lparr>promise_value = Some 1, promise_finished = True, point = Final\<rparr>],
        next_addr = 1, world = ()\<rparr> = Inl Undefined"
proof -
  let ?f = "\<lparr>promise_value = Some (1::int), promise_finished = True,
             point = (Final :: range_locals point)\<rparr>"
  let ?m = "\<lparr>heap = [0 \<mapsto> ?f], next_addr = 1, world = ()\<rparr>"
  have h1: "heap ?m 0 = Some ?f" by simp
  have h2: "point ?f = Final" by simp
  show ?thesis using advance_after_completion_undefined [OF h1 h2, of range_body] by simp
qed

subsection \<open>A producer body that throws\<close>

text \<open>
  C8, as stated, fails.  For the producer \<^verbatim>\<open>co_yield 1; throw ...\<close> the first value is read
  after \<^verbatim>\<open>begin()\<close>; the \<^verbatim>\<open>++it\<close> that runs into the \<^verbatim>\<open>throw\<close> ends in
  \<^verbatim>\<open>std::terminate\<close>: no machine is left in which the error could be delivered to the caller
  or the frame destroyed.
\<close>

theorem throwing_body_terminates:
  "read_after 0 throwing_body ThrowingEntry empty_machine = Inr (True, 1)
   \<and> read_after 1 throwing_body ThrowingEntry empty_machine = Inl Terminate"
  by (simp add: read_after_def engine_defs empty_machine_def)

text \<open>
  C8, amended.  Whenever the body of a suspended frame raises, the call that resumed it
  (\<^verbatim>\<open>resume()\<close>, \<^verbatim>\<open>operator++\<close> or \<^verbatim>\<open>begin()\<close>) ends in \<^verbatim>\<open>std::terminate\<close>, by
  \<^verbatim>\<open>unhandled_exception\<close>.
\<close>

theorem raise_calls_terminate:
  assumes "heap m a = Some f" and "point f = Initial l \<or> point f = Suspended l"
    and "body l m = Inr (Raise, m')"
  shows "handle_resume body (Some a) m = Inl Terminate
       \<and> Iterator_inc body (Some a) m = Inl Terminate
       \<and> Generator_begin body (Some a) m = Inl Terminate"
  using assms by (auto simp: engine_defs)

text \<open>Witness for C8, amended: the throwing producer, suspended after its first value.\<close>

theorem raise_calls_terminate_witness:
  "Iterator_inc throwing_body (Some 0)
     \<lparr>heap = [0 \<mapsto> \<lparr>promise_value = Some 1, promise_finished = False,
                      point = Suspended ThrowingYield\<rparr>],
      next_addr = 1, world = ()\<rparr> = Inl Terminate"
proof -
  let ?f = "\<lparr>promise_value = Some (1::int), promise_finished = False,
             point = Suspended ThrowingYield\<rparr>"
  let ?m = "\<lparr>heap = [0 \<mapsto> ?f], next_addr = 1, world = ()\<rparr>"
  have h1: "heap ?m 0 = Some ?f" by simp
  have h2: "point ?f = Initial ThrowingYield \<or> point ?f = Suspended ThrowingYield" by simp
  have h3: "throwing_body ThrowingYield ?m = Inr (Raise, ?m)" by simp
  show ?thesis using raise_calls_terminate [of ?m 0 ?f ThrowingYield throwing_body ?m] h1 h2 h3 by simp
qed

subsection \<open>Moves and the destructor\<close>

text \<open>
  C9.  For distinct generator objects \<open>this\<close> and \<open>other\<close>, where the frame \<open>this\<close> held
  before (if any) can be released: move assignment releases that frame, gives \<open>this\<close> the
  handle of \<open>other\<close> and leaves \<open>other\<close> null, so that destroying \<open>other\<close> afterwards changes
  nothing and destroying \<open>this\<close> releases the frame that came from \<open>other\<close>; move construction
  does the same without releasing anything; self move assignment changes nothing; the
  destructor of an object without a frame changes nothing.
\<close>

theorem move_transfers_ownership:
  assumes "this \<noteq> other" and "Generator_dtor cleanup (gs this) m = Inr m1"
  shows "Generator_move_assign cleanup this other (gs, m) =
           Inr ((gs(this := gs other))(other := None), m1)
       \<and> ((gs(this := gs other))(other := None)) this = gs other
       \<and> ((gs(this := gs other))(other := None)) other = None
       \<and> Generator_destructor cleanup other ((gs(this := gs other))(other := None), m1) = Inr m1
       \<and> Generator_destructor cleanup this ((gs(this := gs other))(other := None), m1) =
           Generator_dtor cleanup (gs other) m1
       \<and> Generator_move_ctor this other gs = (gs(this := gs other))(other := None)
       \<and> Generator_destructor cleanup other (Generator_move_ctor this other gs, m) = Inr m
       \<and> Generator_destructor cleanup this (Generator_move_ctor this other gs, m) =
           Generator_dtor cleanup (gs other) m
       \<and> Generator_move_assign cleanup other other (gs, m) = Inr (gs, m)
       \<and> Generator_destructor cleanup this (gs(this := None), m) = Inr m"
  using assms
  by (simp add: Generator_move_assign_def Generator_destructor_def Generator_move_ctor_def
      Generator_dtor_def handle_bool_def)

text \<open>
  Witness for C9: object 0 holds the frame of \<^verbatim>\<open>range(1, 6)\<close> at address 0, object 1 the
  frame of \<^verbatim>\<open>range(1, 3)\<close> at address 1.  After \<^verbatim>\<open>object1 = std::move(object0)\<close> frame 1
  is freed, frame 0 is alive and owned by object 1; destroying object 0 frees nothing,
  destroying object 1 frees frame 0.
\<close>

theorem move_transfers_ownership_witness:
  "Generator_move_assign no_cleanup (1::nat) 0
     ((\<lambda>g. None)(0 := Some 0, 1 := Some 1),
      \<lparr>heap = [0 \<mapsto> (fresh_frame (range_args 1 6) :: (int, range_locals) frame), 1 \<mapsto> fresh_frame (range_args 1 3)],
       next_addr = 2, world = ()\<rparr>) =
   Inr ((\<lambda>g. None)(0 := None, 1 := Some 0),
        \<lparr>heap = [0 \<mapsto> (fresh_frame (range_args 1 6) :: (int, range_locals) frame)], next_addr = 2, world = ()\<rparr>)
   \<and> Generator_destructor no_cleanup (0::nat)
       ((\<lambda>g. None)(0 := None, 1 := Some 0),
        \<lparr>heap = [0 \<mapsto> (fresh_frame (range_args 1 6) :: (int, range_locals) frame)], next_addr = 2, world = ()\<rparr>) =
     Inr \<lparr>heap = [0 \<mapsto> (fresh_frame (range_args 1 6) :: (int, range_locals) frame)], next_addr = 2, world = ()\<rparr>
   \<and> Generator_destructor no_cleanup (1::nat)
       ((\<lambda>g. None)(0 := None, 1 := Some 0),
        \<lparr>heap = [0 \<mapsto> (fresh_frame (range_args 1 6) :: (int, range_locals) frame)], next_addr = 2, world = ()\<rparr>) =
     Inr \<lparr>heap = (\<lambda>a. None), next_addr = 2, world = ()\<rparr>"
proof -
  let ?gs = "(\<lambda>g::nat. None)(0 := Some (0::nat), 1 := Some 1)"
  let ?m = "\<lparr>heap = [0 \<mapsto> (fresh_frame (range_args 1 6) :: (int, range_locals) frame), 1 \<mapsto> fresh_frame (range_args 1 3)],
             next_addr = 2, world = ()\<rparr>"
  let ?m1 = "\<lparr>heap = [0 \<mapsto> (fresh_frame (range_args 1 6) :: (int, range_locals) frame)], next_addr = 2::nat, world = ()\<rparr>"
  have ne: "(1::nat) \<noteq> 0" by simp
  have rel: "Generator_dtor no_cleanup (?gs 1) ?m = Inr ?m1"
    by (simp add: engine_defs range_args_def fun_upd_twist)
  have upd: "(?gs(1 := ?gs 0))(0 := None) = (\<lambda>g. None)(0 := None, 1 := Some 0)"
    by (simp add: fun_eq_iff)
  have last: "Generator_dtor no_cleanup (Some 0) ?m1 =
      Inr \<lparr>heap = (\<lambda>a. None), next_addr = 2, world = ()\<rparr>"
    by (simp add: engine_defs range_args_def)
  show ?thesis
    using move_transfers_ownership [of 1 0 no_cleanup ?gs ?m ?m1, OF ne rel] last unfolding upd by simp
qed

subsection \<open>range for every start, end and step\<close>

text \<open>The first resumption of a \<^verbatim>\<open>range\<close> frame, and the later ones.\<close>

lemma range_first_resume:
  assumes "heap m a = Some f" and "point f = Initial (RangeEntry start end step)"
  shows "handle_resume range_body (Some a) m =
     Inr (if start < end
          then m\<lparr>heap := (heap m)(a \<mapsto> f\<lparr>promise_value := Some start,
                                          point := Suspended (RangeYield start end step)\<rparr>)\<rparr>
          else m\<lparr>heap := (heap m)(a \<mapsto> f\<lparr>promise_finished := True, point := Final\<rparr>)\<rparr>)"
  using assms
  by (simp add: handle_resume_def run_def range_test_def yield_value_def return_void_def
      final_suspend_def)

lemma range_next_resume:
  assumes "heap m a = Some f" and "point f = Suspended (RangeYield i end step)"
  shows "handle_resume range_body (Some a) m =
     (if is_int (i + step)
      then Inr (if i + step < end
                then m\<lparr>heap := (heap m)(a \<mapsto> f\<lparr>promise_value := Some (i + step),
                                     point := Suspended (RangeYield (i + step) end step)\<rparr>)\<rparr>
                else m\<lparr>heap := (heap m)(a \<mapsto> f\<lparr>promise_finished := True, point := Final\<rparr>)\<rparr>)
      else Inl Undefined)"
  using assms
  by (simp add: handle_resume_def run_def range_test_def yield_value_def return_void_def
      final_suspend_def int_add_def)

lemma resume_at_final:
  assumes "heap m a = Some f" and "point f = Final"
  shows "handle_resume body (Some a) m = Inl Undefined"
  using assms by (simp add: handle_resume_def)

text \<open>
  With \<open>start < end\<close> and a step that is not positive the loop condition never fails: the
  frame yields \<open>start + n * step\<close> as long as that is an \<^verbatim>\<open>int\<close>.
\<close>

lemma range_resumes_nonpositive_step:
  assumes h: "heap m a = Some f" and p: "point f = Initial (RangeEntry start end step)"
    and lt: "start < end" and st: "step \<le> 0" and s: "is_int start"
  shows "resume_n (Suc n) range_body (Some a) m =
     (if is_int (start + int n * step)
      then Inr (m\<lparr>heap := (heap m)(a \<mapsto> f\<lparr>promise_value := Some (start + int n * step),
                     point := Suspended (RangeYield (start + int n * step) end step)\<rparr>)\<rparr>)
      else Inl Undefined)"
proof (induction n)
  case 0
  show ?case using range_first_resume [OF h p] lt s by simp
next
  case (Suc n)
  let ?i = "start + int n * step"
  have le: "?i \<le> start"
    using st by (simp add: mult_nonneg_nonpos)
  have nxt: "start + int (Suc n) * step = ?i + step"
    by (simp add: algebra_simps)
  have snoc: "resume_n (Suc (Suc n)) range_body (Some a) m =
      (case resume_n (Suc n) range_body (Some a) m of
         Inl e \<Rightarrow> Inl e | Inr m' \<Rightarrow> handle_resume range_body (Some a) m')"
    by (rule resume_n_snoc)
  show ?case
  proof (cases "is_int ?i")
    case True
    let ?f = "f\<lparr>promise_value := Some ?i, point := Suspended (RangeYield ?i end step)\<rparr>"
    let ?m = "m\<lparr>heap := (heap m)(a \<mapsto> ?f)\<rparr>"
    have cur: "resume_n (Suc n) range_body (Some a) m = Inr ?m"
      using Suc.IH True by simp
    have h': "heap ?m a = Some ?f" by simp
    have p': "point ?f = Suspended (RangeYield ?i end step)" by simp
    have "?i + step < end" using le lt st by linarith
    then have step: "handle_resume range_body (Some a) ?m =
        (if is_int (?i + step)
         then Inr (m\<lparr>heap := (heap m)(a \<mapsto> f\<lparr>promise_value := Some (?i + step),
                     point := Suspended (RangeYield (?i + step) end step)\<rparr>)\<rparr>)
         else Inl Undefined)"
      using range_next_resume [OF h' p'] by simp
    show ?thesis
      unfolding snoc cur nxt using step by simp
  next
    case False
    have cur: "resume_n (Suc n) range_body (Some a) m = Inl Undefined"
      using Suc.IH False by simp
    have "\<not> is_int (?i + step)"
      using False le s st unfolding is_int_def by linarith
    then show ?thesis
      unfolding snoc cur nxt by simp
  qed
qed

text \<open>
  With \<open>start < end\<close> and a positive step the frame yields \<open>start + n * step\<close> while that is
  below \<open>end\<close>; the resumption that reaches \<open>end\<close> completes the frame unless the addition
  overflows; any later one is undefined.
\<close>

lemma range_resumes_positive_step:
  assumes h: "heap m a = Some f" and p: "point f = Initial (RangeEntry start end step)"
    and lt: "start < end" and st: "0 < step" and s: "is_int start" and e: "is_int end"
  shows "resume_n (Suc n) range_body (Some a) m =
     (if start + int n * step < end
      then Inr (m\<lparr>heap := (heap m)(a \<mapsto> f\<lparr>promise_value := Some (start + int n * step),
                     point := Suspended (RangeYield (start + int n * step) end step)\<rparr>)\<rparr>)
      else if 0 < n \<and> start + int n * step - step < end \<and> is_int (start + int n * step)
      then Inr (m\<lparr>heap := (heap m)(a \<mapsto> f\<lparr>promise_value := Some (start + int n * step - step),
                     promise_finished := True, point := Final\<rparr>)\<rparr>)
      else Inl Undefined)"
proof (induction n)
  case 0
  show ?case using range_first_resume [OF h p] lt by simp
next
  case (Suc n)
  let ?i = "start + int n * step"
  have ge: "start \<le> ?i"
    using st by simp
  have nxt: "start + int (Suc n) * step = ?i + step"
    by (simp add: algebra_simps)
  have snoc: "resume_n (Suc (Suc n)) range_body (Some a) m =
      (case resume_n (Suc n) range_body (Some a) m of
         Inl e \<Rightarrow> Inl e | Inr m' \<Rightarrow> handle_resume range_body (Some a) m')"
    by (rule resume_n_snoc)
  consider (yield) "?i < end"
    | (final) "\<not> ?i < end" "0 < n \<and> ?i - step < end \<and> is_int ?i"
    | (fault) "\<not> ?i < end" "\<not> (0 < n \<and> ?i - step < end \<and> is_int ?i)"
    by blast
  then show ?case
  proof cases
    case yield
    let ?f = "f\<lparr>promise_value := Some ?i, point := Suspended (RangeYield ?i end step)\<rparr>"
    let ?m = "m\<lparr>heap := (heap m)(a \<mapsto> ?f)\<rparr>"
    have cur: "resume_n (Suc n) range_body (Some a) m = Inr ?m"
      using Suc.IH yield by simp
    have h': "heap ?m a = Some ?f" by simp
    have p': "point ?f = Suspended (RangeYield ?i end step)" by simp
    have over: "\<not> is_int (?i + step) \<Longrightarrow> \<not> ?i + step < end"
      using ge s e st unfolding is_int_def by linarith
    have step: "handle_resume range_body (Some a) ?m =
        (if is_int (?i + step)
         then Inr (if ?i + step < end
                   then m\<lparr>heap := (heap m)(a \<mapsto> f\<lparr>promise_value := Some (?i + step),
                          point := Suspended (RangeYield (?i + step) end step)\<rparr>)\<rparr>
                   else m\<lparr>heap := (heap m)(a \<mapsto> f\<lparr>promise_value := Some ?i,
                          promise_finished := True, point := Final\<rparr>)\<rparr>)
         else Inl Undefined)"
      using range_next_resume [OF h' p'] by simp
    have two: "resume_n (Suc (Suc n)) range_body (Some a) m =
        handle_resume range_body (Some a) ?m"
      unfolding snoc cur by simp
    show ?thesis
    proof (cases "is_int (?i + step)")
      case True
      show ?thesis
      proof (cases "?i + step < end")
        case lt': True
        show ?thesis
          unfolding two nxt using step True lt' by simp
      next
        case ge': False
        show ?thesis
          unfolding two nxt using step True ge' yield by simp
      qed
    next
      case False
      show ?thesis
        unfolding two nxt using step False over by simp
    qed
  next
    case final
    let ?f = "f\<lparr>promise_value := Some (?i - step), promise_finished := True, point := Final\<rparr>"
    let ?m = "m\<lparr>heap := (heap m)(a \<mapsto> ?f)\<rparr>"
    have cur: "resume_n (Suc n) range_body (Some a) m = Inr ?m"
      using Suc.IH final by simp
    have h': "heap ?m a = Some ?f" by simp
    have p': "point ?f = Final" by simp
    show ?thesis
      unfolding snoc cur nxt
      using resume_at_final [OF h' p', of range_body] final st by simp
  next
    case fault
    have cur: "resume_n (Suc n) range_body (Some a) m = Inl Undefined"
      using Suc.IH fault by auto
    show ?thesis
      unfolding snoc cur nxt
      using fault st by simp
  qed
qed

lemma nth_resume_created:
  "nth_resume n body args m =
     (case resume_n n body (Some (next_addr m))
             (m\<lparr>heap := (heap m)(next_addr m \<mapsto> fresh_frame args),
                next_addr := Suc (next_addr m)\<rparr>) of
        Inl e \<Rightarrow> Faulted e
      | Inr m2 \<Rightarrow> observe (Some (next_addr m)) m2)"
  by (simp add: nth_resume_def create_def initial_suspend_def Let_def)

text \<open>
  C10, as stated, fails.  \<^verbatim>\<open>range(0, 1, INT_MIN)\<close> has \<open>start < end\<close> and a negative step;
  it yields 0 and \<^verbatim>\<open>INT_MIN\<close>, and the third resumption overflows in \<^verbatim>\<open>i += step\<close>:
  the sequence is not unending.
\<close>

theorem range_negative_step_overflows:
  "nth_resume 1 range_body (RangeEntry 0 1 (- 2147483648)) empty_machine = Yielded 0
   \<and> nth_resume 2 range_body (RangeEntry 0 1 (- 2147483648)) empty_machine
       = Yielded (- 2147483648)
   \<and> nth_resume 3 range_body (RangeEntry 0 1 (- 2147483648)) empty_machine
       = Faulted Undefined"
  by (simp add: nth_resume_def observe_def engine_defs range_test_def int_defs empty_machine_def
      numeral_2_eq_2 numeral_3_eq_3)

text \<open>
  C10, amended.  For \<^verbatim>\<open>int\<close> arguments, by cases on a new \<^verbatim>\<open>range(start, end, step)\<close>:
  with \<open>end \<le> start\<close> the first resumption completes the frame;
  with \<open>start < end\<close> and \<open>0 < step\<close> resumption \<open>n + 1\<close> yields \<open>start + n * step\<close> while
  that is below \<open>end\<close>, the first one at or beyond \<open>end\<close> completes the frame unless
  \<^verbatim>\<open>i += step\<close> overflows, and this happens after at most \<open>end - start\<close> values;
  with \<open>step = 0\<close> every resumption yields \<open>start\<close>;
  with \<open>step < 0\<close> resumption \<open>n + 1\<close> yields \<open>start + n * step\<close> while that is an
  \<^verbatim>\<open>int\<close> and is undefined (signed overflow) from then on, so the frame never completes.
\<close>

theorem range_sequence_by_step:
  assumes s: "is_int start" and e: "is_int end"
  shows
    "if end \<le> start then nth_resume 1 range_body (RangeEntry start end step) m = Finished
     else if 0 < step then
       (\<forall>n. nth_resume (Suc n) range_body (RangeEntry start end step) m =
          (if start + int n * step < end then Yielded (start + int n * step)
           else if 0 < n \<and> start + int n * step - step < end \<and> is_int (start + int n * step)
           then Finished else Faulted Undefined))
       \<and> \<not> start + int (nat (end - start)) * step < end
     else if step = 0 then
       (\<forall>n. nth_resume (Suc n) range_body (RangeEntry start end step) m = Yielded start)
     else
       (\<forall>n. nth_resume (Suc n) range_body (RangeEntry start end step) m =
          (if is_int (start + int n * step) then Yielded (start + int n * step)
           else Faulted Undefined))"
proof -
  let ?a = "next_addr m"
  let ?f = "fresh_frame (RangeEntry start end step) :: (int, range_locals) frame"
  let ?m1 = "m\<lparr>heap := (heap m)(?a \<mapsto> ?f), next_addr := Suc ?a\<rparr>"
  have h: "heap ?m1 ?a = Some ?f" by simp
  have p: "point ?f = Initial (RangeEntry start end step)" by (simp add: fresh_frame_def)
  show ?thesis
  proof (cases "end \<le> start")
    case True
    have "resume_n (Suc 0) range_body (Some ?a) ?m1 =
        Inr (?m1\<lparr>heap := (heap ?m1)(?a \<mapsto> ?f\<lparr>promise_finished := True, point := Final\<rparr>)\<rparr>)"
      using range_first_resume [OF h p] True by simp
    then have "nth_resume 1 range_body (RangeEntry start end step) m = Finished"
      by (simp add: nth_resume_created observe_def handle_done_def)
    with True show ?thesis by simp
  next
    case False
    then have lt: "start < end" by simp
    consider (pos) "0 < step" | (zero) "step = 0" | (neg) "step < 0" by linarith
    then show ?thesis
    proof cases
      case pos
      have cl: "nth_resume (Suc n) range_body (RangeEntry start end step) m =
          (if start + int n * step < end then Yielded (start + int n * step)
           else if 0 < n \<and> start + int n * step - step < end \<and> is_int (start + int n * step)
           then Finished else Faulted Undefined)" for n
        unfolding nth_resume_created range_resumes_positive_step [OF h p lt pos s e]
        by (simp add: observe_def handle_done_def handle_promise_value_def)
      have nn: "int (nat (end - start)) = end - start"
        using lt by simp
      have "(end - start) * 1 \<le> (end - start) * step"
        using pos lt by (intro mult_left_mono) simp_all
      then have "end - start \<le> (end - start) * step"
        by (simp only: mult_1_right)
      then have fin: "\<not> start + int (nat (end - start)) * step < end"
        unfolding nn by linarith
      from cl fin pos False show ?thesis by simp
    next
      case zero
      then have le: "step \<le> 0" by simp
      have "nth_resume (Suc n) range_body (RangeEntry start end step) m = Yielded start" for n
        unfolding nth_resume_created range_resumes_nonpositive_step [OF h p lt le s]
        using zero s
        by (simp add: observe_def handle_done_def handle_promise_value_def)
      with zero False show ?thesis by simp
    next
      case neg
      then have le: "step \<le> 0" by simp
      have "nth_resume (Suc n) range_body (RangeEntry start end step) m =
          (if is_int (start + int n * step) then Yielded (start + int n * step)
           else Faulted Undefined)" for n
        unfolding nth_resume_created range_resumes_nonpositive_step [OF h p lt le s]
        by (simp add: observe_def handle_done_def handle_promise_value_def)
      with neg False show ?thesis by simp
    qed
  qed
qed

text \<open>
  Witness for C10, amended: \<^verbatim>\<open>range(5, 5)\<close>, \<^verbatim>\<open>range(0, 5, 2)\<close>, \<^verbatim>\<open>range(3, 5, 0)\<close>
  and \<^verbatim>\<open>range(0, 1, INT_MIN)\<close>.
\<close>

theorem range_sequence_by_step_witness:
  "is_int 0 \<and> is_int 1 \<and> is_int 3 \<and> is_int 5
   \<and> nth_resume 1 range_body (RangeEntry 5 5 1) empty_machine = Finished
   \<and> nth_resume (Suc 2) range_body (RangeEntry 0 5 2) empty_machine = Yielded 4
   \<and> nth_resume (Suc 3) range_body (RangeEntry 0 5 2) empty_machine = Finished
   \<and> nth_resume (Suc 7) range_body (RangeEntry 3 5 0) empty_machine = Yielded 3
   \<and> nth_resume (Suc 1) range_body (RangeEntry 0 1 (- 2147483648)) empty_machine
       = Yielded (- 2147483648)
   \<and> nth_resume (Suc 2) range_body (RangeEntry 0 1 (- 2147483648)) empty_machine
       = Faulted Undefined"
proof -
  have i0: "is_int 0" and i1: "is_int 1" and i3: "is_int 3" and i5: "is_int 5"
    by (simp_all add: int_defs)
  have a: "nth_resume 1 range_body (RangeEntry 5 5 1) empty_machine = Finished"
    using range_sequence_by_step [OF i5 i5, of 1 empty_machine] by simp
  have "\<forall>n. nth_resume (Suc n) range_body (RangeEntry 0 5 2) empty_machine =
          (if 0 + int n * 2 < 5 then Yielded (0 + int n * 2)
           else if 0 < n \<and> 0 + int n * 2 - 2 < 5 \<and> is_int (0 + int n * 2)
           then Finished else Faulted Undefined)"
    using range_sequence_by_step [OF i0 i5, of 2 empty_machine] by simp
  note pos = this [rule_format]
  have b: "nth_resume (Suc 2) range_body (RangeEntry 0 5 2) empty_machine = Yielded 4"
    using pos [of 2] by (simp add: int_defs)
  have c: "nth_resume (Suc 3) range_body (RangeEntry 0 5 2) empty_machine = Finished"
    using pos [of 3] by (simp add: int_defs)
  have "\<forall>n. nth_resume (Suc n) range_body (RangeEntry 3 5 0) empty_machine = Yielded 3"
    using range_sequence_by_step [OF i3 i5, of 0 empty_machine] by simp
  note zero = this [rule_format]
  have d: "nth_resume (Suc 7) range_body (RangeEntry 3 5 0) empty_machine = Yielded 3"
    using zero [of 7] by simp
  have "\<forall>n. nth_resume (Suc n) range_body (RangeEntry 0 1 (- 2147483648)) empty_machine =
          (if is_int (0 + int n * (- 2147483648)) then Yielded (0 + int n * (- 2147483648))
           else Faulted Undefined)"
    using range_sequence_by_step [OF i0 i1, of "- 2147483648" empty_machine] by simp
  note neg = this [rule_format]
  have e: "nth_resume (Suc 1) range_body (RangeEntry 0 1 (- 2147483648)) empty_machine
       = Yielded (- 2147483648)"
    using neg [of 1] by (simp add: int_defs)
  have f: "nth_resume (Suc 2) range_body (RangeEntry 0 1 (- 2147483648)) empty_machine
       = Faulted Undefined"
    using neg [of 2] by (simp add: int_defs)
  from i0 i1 i3 i5 a b c d e f show ?thesis by simp
qed

end
